theory Spec2Isabelle
  imports Main
begin

section \<open>Data model (types.ts and the component state of App)\<close>

text \<open>
  \<^verbatim>\<open>UsbDeviceInfo\<close> and \<^verbatim>\<open>TrustedDevice\<close> of types.ts. A TypeScript \<^verbatim>\<open>number\<close> that
  holds an identifier is an \<open>int\<close>; \<^verbatim>\<open>string | null\<close> is a \<open>string option\<close>.
\<close>

record UsbDeviceInfo =
  vendor_id :: int
  product_id :: int
  manufacturer :: "string option"
  product :: "string option"
  serial_number :: "string option"
  port_number :: "int option"
  connected :: bool
  trusted :: bool

type_synonym TrustedDevice = "int \<times> int"

text \<open>The string union \<^verbatim>\<open>"idle" | "blocking" | "unblocking"\<close> of \<^verbatim>\<open>blockStatus\<close>.\<close>

datatype BlockStatus = idle | blocking | unblocking

text \<open>
  The six \<^verbatim>\<open>useState\<close> cells of \<^verbatim>\<open>App\<close>. Every setter of the component is called with
  a plain value, so a sequence of setter calls leaves each cell at the last value written:
  a setter is a field update.
\<close>

record state =
  devices :: "UsbDeviceInfo list"
  trustedDevices :: "TrustedDevice list"
  autoblockEnabled :: bool
  error :: "string option"
  isLoading :: bool
  blockStatus :: BlockStatus

text \<open>The initial values given to \<^verbatim>\<open>useState\<close>.\<close>

definition initial_state :: state where
  "initial_state =
     \<lparr> devices = [], trustedDevices = [], autoblockEnabled = True,
       error = None, isLoading = True, blockStatus = idle \<rparr>"

abbreviation setDevices :: "UsbDeviceInfo list \<Rightarrow> state \<Rightarrow> state" where
  "setDevices v s \<equiv> s\<lparr>devices := v\<rparr>"

abbreviation setTrustedDevices :: "TrustedDevice list \<Rightarrow> state \<Rightarrow> state" where
  "setTrustedDevices v s \<equiv> s\<lparr>trustedDevices := v\<rparr>"

abbreviation setAutoblockEnabled :: "bool \<Rightarrow> state \<Rightarrow> state" where
  "setAutoblockEnabled v s \<equiv> s\<lparr>autoblockEnabled := v\<rparr>"

abbreviation setError :: "string option \<Rightarrow> state \<Rightarrow> state" where
  "setError v s \<equiv> s\<lparr>error := v\<rparr>"

abbreviation setIsLoading :: "bool \<Rightarrow> state \<Rightarrow> state" where
  "setIsLoading v s \<equiv> s\<lparr>isLoading := v\<rparr>"

abbreviation setBlockStatus :: "BlockStatus \<Rightarrow> state \<Rightarrow> state" where
  "setBlockStatus v s \<equiv> s\<lparr>blockStatus := v\<rparr>"

section \<open>Rejections and their conversion to text\<close>

text \<open>
  The value a rejected promise carries: an \<^verbatim>\<open>Error\<close> instance, given by its \<^verbatim>\<open>name\<close> and
  \<^verbatim>\<open>message\<close>, or any other value, given by the string \<^verbatim>\<open>String(err)\<close> converts it to
  (a string rejection is that string itself).
\<close>

datatype thrown = ErrorObject string string | Value string

text \<open>\<^verbatim>\<open>String(err)\<close>; for an \<^verbatim>\<open>Error\<close> this is \<^verbatim>\<open>Error.prototype.toString\<close>.\<close>

fun js_String :: "thrown \<Rightarrow> string" where
  "js_String (ErrorObject name msg) =
     (if name = [] then msg else if msg = [] then name else name @ '': '' @ msg)"
| "js_String (Value v) = v"

text \<open>\<^verbatim>\<open>err instanceof Error ? err.message : String(err)\<close>\<close>

fun message_of :: "thrown \<Rightarrow> string" where
  "message_of (ErrorObject name msg) = msg"
| "message_of (Value v) = js_String (Value v)"

section \<open>Asynchronous functions as resumptions\<close>

text \<open>
  The arguments object of an \<^verbatim>\<open>invoke\<close> call, as the list of its properties.
\<close>

datatype js_value = Num int | Bool bool

type_synonym args = "(string \<times> js_value) list"

text \<open>
  A started asynchronous function is either finished or suspended at an \<^verbatim>\<open>await\<close>. The
  suspended forms are: one constructor for each type parameter \<^verbatim>\<open>invoke<T>(cmd, args)\<close>
  is used with (\<^verbatim>\<open>UsbDeviceInfo[]\<close>, \<^verbatim>\<open>TrustedDevice[]\<close>, \<^verbatim>\<open>boolean\<close>, and none, where the
  resolved value is discarded), \<^verbatim>\<open>listen(event, handler)\<close>, and the wait for a group of
  started functions (\<^verbatim>\<open>await Promise.all([...])\<close>, and \<^verbatim>\<open>await f()\<close> as the group of one).
  Each carries its continuation: the code that runs, in one uninterrupted turn, when the
  awaited promise settles, \<open>Inl\<close> for a rejection (the \<^verbatim>\<open>catch\<close> branch) and \<open>Inr\<close> for the
  resolved value. The continuation reads the component state of that moment and returns
  the state after its setter calls together with the next suspension. No function of
  \<^verbatim>\<open>App\<close> rejects (each body is one \<^verbatim>\<open>try\<close> with a \<^verbatim>\<open>catch\<close>), so a finished function has
  no failure form.
\<close>

datatype task =
    is_Done: Done
  | Invoke_UsbDeviceInfos string args "thrown + UsbDeviceInfo list \<Rightarrow> state \<Rightarrow> state \<times> task"
  | Invoke_TrustedDevices string args "thrown + TrustedDevice list \<Rightarrow> state \<Rightarrow> state \<times> task"
  | Invoke_boolean string args "thrown + bool \<Rightarrow> state \<Rightarrow> state \<times> task"
  | Invoke_unknown string args "thrown + unit \<Rightarrow> state \<Rightarrow> state \<times> task"
  | Listen string "state \<Rightarrow> state \<times> task" "thrown + unit \<Rightarrow> state \<Rightarrow> state \<times> task"
  | Join "task list" "state \<Rightarrow> state \<times> task"

text \<open>
  Calling an asynchronous function runs it up to its first \<^verbatim>\<open>await\<close>: from the state
  the call sees to the state after the synchronous prefix, and the suspended rest.
\<close>

type_synonym async = "state \<Rightarrow> state \<times> task"

text \<open>The calls in an array literal \<^verbatim>\<open>[f(), g(), h()]\<close> are started from left to right.\<close>

fun call_all :: "async list \<Rightarrow> state \<Rightarrow> state \<times> task list" where
  "call_all [] s = (s, [])"
| "call_all (f # fs) s =
     (case f s of (s1, t) \<Rightarrow> (case call_all fs s1 of (s2, ts) \<Rightarrow> (s2, t # ts)))"

text \<open>
  \<^verbatim>\<open>await Promise.all([f(), g(), h()]); rest\<close>: start the functions, and run \<open>rest\<close> once
  every one of them has finished.
\<close>

definition await_all :: "async list \<Rightarrow> async \<Rightarrow> async" where
  "await_all fs rest s =
     (case call_all fs s of (s', ts) \<Rightarrow>
        if list_all is_Done ts then rest s' else (s', Join ts rest))"

section \<open>The outstanding requests of a task and their settlement\<close>

datatype request = Call string args | Subscribe string async

fun pending :: "task \<Rightarrow> request list" where
  "pending Done = []"
| "pending (Invoke_UsbDeviceInfos cmd a k) = [Call cmd a]"
| "pending (Invoke_TrustedDevices cmd a k) = [Call cmd a]"
| "pending (Invoke_boolean cmd a k) = [Call cmd a]"
| "pending (Invoke_unknown cmd a k) = [Call cmd a]"
| "pending (Listen ev handler k) = [Subscribe ev handler]"
| "pending (Join ts k) = concat (map pending ts)"

fun request_name :: "request \<Rightarrow> string" where
  "request_name (Call cmd a) = cmd"
| "request_name (Subscribe ev handler) = ev"

text \<open>
  What the command gateway or the event plugin answers: a rejection, or a resolved value:
  a payload of one of the three types a command is awaited at, \<open>Ack\<close> for the value of a
  command whose result the caller discards, \<open>Unlisten\<close> for the \<^verbatim>\<open>UnlistenFn\<close> of a
  subscription.
\<close>

datatype reply =
    Rejected thrown
  | Devices "UsbDeviceInfo list"
  | Pairs "TrustedDevice list"
  | is_Flag: Flag bool
  | Ack
  | Unlisten

text \<open>
  \<open>resolve n r t s\<close>: the reply \<open>r\<close> to the command (or to the subscription to the event)
  named \<open>n\<close> arrives while the component state is \<open>s\<close>. It settles the request of that name
  that \<open>t\<close> has outstanding, and the continuation runs. It is \<open>None\<close> when \<open>t\<close> has no
  outstanding request of that name, or when the reply has not the type the request is
  awaited at. In a group it is the first member, in the order they were started, with an
  outstanding request of that name. A group whose members have all finished continues in
  the same turn.
\<close>

fun resolve :: "string \<Rightarrow> reply \<Rightarrow> task \<Rightarrow> state \<Rightarrow> (state \<times> task) option"
  and resolve_first :: "string \<Rightarrow> reply \<Rightarrow> task list \<Rightarrow> state \<Rightarrow> (state \<times> task list) option"
where
  "resolve n r Done s = None"
| "resolve n r (Invoke_UsbDeviceInfos cmd a k) s =
     (if n = cmd
      then (case r of Rejected e \<Rightarrow> Some (k (Inl e) s)
                    | Devices v \<Rightarrow> Some (k (Inr v) s)
                    | _ \<Rightarrow> None)
      else None)"
| "resolve n r (Invoke_TrustedDevices cmd a k) s =
     (if n = cmd
      then (case r of Rejected e \<Rightarrow> Some (k (Inl e) s)
                    | Pairs v \<Rightarrow> Some (k (Inr v) s)
                    | _ \<Rightarrow> None)
      else None)"
| "resolve n r (Invoke_boolean cmd a k) s =
     (if n = cmd
      then (case r of Rejected e \<Rightarrow> Some (k (Inl e) s)
                    | Flag v \<Rightarrow> Some (k (Inr v) s)
                    | _ \<Rightarrow> None)
      else None)"
| "resolve n r (Invoke_unknown cmd a k) s =
     (if n = cmd
      then (case r of Rejected e \<Rightarrow> Some (k (Inl e) s)
                    | Ack \<Rightarrow> Some (k (Inr ()) s)
                    | _ \<Rightarrow> None)
      else None)"
| "resolve n r (Listen ev handler k) s =
     (if n = ev
      then (case r of Rejected e \<Rightarrow> Some (k (Inl e) s)
                    | Unlisten \<Rightarrow> Some (k (Inr ()) s)
                    | _ \<Rightarrow> None)
      else None)"
| "resolve n r (Join ts k) s =
     (case resolve_first n r ts s of
        None \<Rightarrow> None
      | Some (s', ts') \<Rightarrow>
          Some (if list_all is_Done ts' then k s' else (s', Join ts' k)))"
| "resolve_first n r [] s = None"
| "resolve_first n r (t # ts) s =
     (if n \<in> set (map request_name (pending t))
      then (case resolve n r t s of
              None \<Rightarrow> None
            | Some (s', t') \<Rightarrow> Some (s', t' # ts))
      else (case resolve_first n r ts s of
              None \<Rightarrow> None
            | Some (s', ts') \<Rightarrow> Some (s', t # ts')))"

text \<open>
  A run of one operation: the replies arrive one after the other, each with the name of
  the command or event it answers.
\<close>

fun run :: "(string \<times> reply) list \<Rightarrow> state \<times> task \<Rightarrow> (state \<times> task) option" where
  "run [] c = Some c"
| "run ((n, r) # evs) (s, t) =
     (case resolve n r t s of None \<Rightarrow> None | Some c \<Rightarrow> run evs c)"

section \<open>The asynchronous functions of \<^verbatim>\<open>App\<close>\<close>

text \<open>
  The three fetches. None writes a cell before its \<^verbatim>\<open>invoke\<close> settles; after the \<^verbatim>\<open>try\<close>
  or the \<^verbatim>\<open>catch\<close> branch the function is finished.
\<close>

definition refreshDevices :: async where
  "refreshDevices s0 =
     (s0, Invoke_UsbDeviceInfos ''get_usb_devices'' [] (\<lambda>r s.
        (case r of
           Inr result \<Rightarrow> setError None (setDevices result s)
         | Inl err \<Rightarrow> setError (Some (''Failed to fetch devices: '' @ message_of err)) s,
         Done)))"

definition refreshTrustedDevices :: async where
  "refreshTrustedDevices s0 =
     (s0, Invoke_TrustedDevices ''get_trusted_devices'' [] (\<lambda>r s.
        (case r of
           Inr result \<Rightarrow> setTrustedDevices result s
         | Inl err \<Rightarrow>
             setError (Some (''Failed to fetch trusted devices: '' @ message_of err)) s,
         Done)))"

definition checkAutoblockMode :: async where
  "checkAutoblockMode s0 =
     (s0, Invoke_boolean ''get_autoblock_mode'' [] (\<lambda>r s.
        (case r of
           Inr result \<Rightarrow> setAutoblockEnabled result s
         | Inl err \<Rightarrow>
             setError (Some (''Failed to get autoblock status: '' @ message_of err)) s,
         Done)))"

text \<open>
  \<^verbatim>\<open>initializeApp\<close>, the body of the mount effect. The \<^verbatim>\<open>finally\<close> block is the last write
  of both ways out of the \<^verbatim>\<open>try\<close>. The resolved \<^verbatim>\<open>UnlistenFn\<close> is only handed to the
  effect's cleanup, which is outside this development.
\<close>

definition initializeApp :: async where
  "initializeApp =
     await_all [refreshDevices, refreshTrustedDevices, checkAutoblockMode] (\<lambda>s1.
       (s1, Listen ''usb-device-changed'' refreshDevices (\<lambda>r s.
          (case r of
             Inr unlisten \<Rightarrow> setIsLoading False s
           | Inl err \<Rightarrow> setIsLoading False (setError (Some (message_of err)) s),
           Done))))"

definition toggleDeviceTrust :: "UsbDeviceInfo \<Rightarrow> async" where
  "toggleDeviceTrust device s0 =
     (s0, Invoke_unknown
        (if trusted device then ''remove_trusted_device'' else ''add_trusted_device'')
        [(''vendorId'', Num (vendor_id device)), (''productId'', Num (product_id device))]
        (\<lambda>r s.
           case r of
             Inr _ \<Rightarrow> await_all [refreshDevices, refreshTrustedDevices] (\<lambda>s2. (s2, Done)) s
           | Inl err \<Rightarrow>
               (setError (Some (''Failed to update device trust: '' @ message_of err)) s,
                Done)))"

text \<open>
  \<^verbatim>\<open>toggleAutoblock\<close> reads \<^verbatim>\<open>autoblockEnabled\<close> from the render it was created in, the
  state \<open>s0\<close> of the call, and writes the negation it computed then.
\<close>

definition toggleAutoblock :: async where
  "toggleAutoblock s0 =
     (let newMode = \<not> autoblockEnabled s0 in
      (s0, Invoke_unknown ''set_autoblock_mode'' [(''enabled'', Bool newMode)] (\<lambda>r s.
         case r of
           Inr _ \<Rightarrow> (setAutoblockEnabled newMode s, Done)
         | Inl err \<Rightarrow>
             (setError (Some (''Failed to toggle autoblock: '' @ message_of err)) s, Done))))"

definition blockAllPorts :: async where
  "blockAllPorts s0 =
     (setBlockStatus blocking s0, Invoke_unknown ''block_all_usb_ports'' [] (\<lambda>r s.
        case r of
          Inl err \<Rightarrow> (setBlockStatus idle (setError (Some (js_String err)) s), Done)
        | Inr _ \<Rightarrow>
            (s, Invoke_unknown ''restart_usb_service'' [] (\<lambda>r s.
               case r of
                 Inl err \<Rightarrow> (setBlockStatus idle (setError (Some (js_String err)) s), Done)
               | Inr _ \<Rightarrow>
                   await_all [refreshDevices]
                     (\<lambda>s3. (setBlockStatus idle (setError None s3), Done)) s))))"

definition unblockPorts :: async where
  "unblockPorts s0 =
     (s0, Invoke_unknown ''unblock_usb_port'' [] (\<lambda>r s.
        case r of
          Inr _ \<Rightarrow> await_all [refreshDevices] (\<lambda>s2. (s2, Done)) s
        | Inl err \<Rightarrow>
            (setError (Some (''Failed to unblock ports: '' @ message_of err)) s, Done)))"

section \<open>A sample device\<close>

text \<open>An untrusted, connected receiver, used where a statement needs a concrete payload.\<close>

definition example_device :: UsbDeviceInfo where
  "example_device =
     \<lparr> vendor_id = 1133, product_id = 50475, manufacturer = Some ''Logitech'',
       product = Some ''USB Receiver'', serial_number = None, port_number = Some 2,
       connected = True, trusted = False \<rparr>"

section \<open>Reasoning about runs\<close>

text \<open>
  A run from a suspended task either has no event yet, or its first event settles the
  outstanding request and the run goes on from what the continuation returns.
\<close>

lemma run_DoneE:
  assumes "run evs (s, Done) = Some c"
  obtains "evs = []" "c = (s, Done)"
  using assms by (cases evs) auto

lemma run_Invoke_unknownE:
  assumes "run evs (s, Invoke_unknown cmd a k) = Some c"
  obtains "evs = []" "c = (s, Invoke_unknown cmd a k)"
  | e evs' where "evs = (cmd, Rejected e) # evs'" "run evs' (k (Inl e) s) = Some c"
  | evs' where "evs = (cmd, Ack) # evs'" "run evs' (k (Inr ()) s) = Some c"
  using assms by (cases evs) (auto split: if_splits reply.splits)

lemma run_ListenE:
  assumes "run evs (s, Listen ev h k) = Some c"
  obtains "evs = []" "c = (s, Listen ev h k)"
  | e evs' where "evs = (ev, Rejected e) # evs'" "run evs' (k (Inl e) s) = Some c"
  | evs' where "evs = (ev, Unlisten) # evs'" "run evs' (k (Inr ()) s) = Some c"
  using assms by (cases evs) (auto split: if_splits reply.splits)

lemma run_JoinE:
  assumes "run evs (s, Join ts k) = Some c"
  obtains "evs = []" "c = (s, Join ts k)"
  | n r evs' s1 ts1 where "evs = (n, r) # evs'" "resolve_first n r ts s = Some (s1, ts1)"
      "run evs' (if list_all is_Done ts1 then k s1 else (s1, Join ts1 k)) = Some c"
  using assms by (cases evs) (auto split: option.splits)

lemmas run_elims = run_DoneE run_Invoke_unknownE run_ListenE run_JoinE

text \<open>When a typed \<^verbatim>\<open>invoke\<close> settles: only under its name, by a rejection or its payload.\<close>

lemma resolve_UsbDeviceInfos_iff:
  "resolve n r (Invoke_UsbDeviceInfos c a k) s = Some x \<longleftrightarrow>
     n = c \<and> ((\<exists>e. r = Rejected e \<and> x = k (Inl e) s) \<or> (\<exists>v. r = Devices v \<and> x = k (Inr v) s))"
  by (auto split: reply.splits)

lemma resolve_TrustedDevices_iff:
  "resolve n r (Invoke_TrustedDevices c a k) s = Some x \<longleftrightarrow>
     n = c \<and> ((\<exists>e. r = Rejected e \<and> x = k (Inl e) s) \<or> (\<exists>v. r = Pairs v \<and> x = k (Inr v) s))"
  by (auto split: reply.splits)

lemma resolve_boolean_iff:
  "resolve n r (Invoke_boolean c a k) s = Some x \<longleftrightarrow>
     n = c \<and> ((\<exists>e. r = Rejected e \<and> x = k (Inl e) s) \<or> (\<exists>v. r = Flag v \<and> x = k (Inr v) s))"
  by (auto split: reply.splits)

lemma resolve_first_Cons_iff:
  "resolve_first n r (t # ts) s = Some (s1, ts1) \<longleftrightarrow>
     (n \<in> set (map request_name (pending t)) \<and>
        (\<exists>t1. resolve n r t s = Some (s1, t1) \<and> ts1 = t1 # ts))
   \<or> (n \<notin> set (map request_name (pending t)) \<and>
        (\<exists>ts'. resolve_first n r ts s = Some (s1, ts') \<and> ts1 = t # ts'))"
  by (auto split: option.splits)

lemmas resolve_iffs =
  resolve_UsbDeviceInfos_iff resolve_TrustedDevices_iff resolve_boolean_iff resolve_first_Cons_iff

lemmas app_defs =
  refreshDevices_def refreshTrustedDevices_def checkAutoblockMode_def initializeApp_def
  toggleDeviceTrust_def toggleAutoblock_def blockAllPorts_def unblockPorts_def
  await_all_def Let_def

text \<open>
  Runs of a group of three fetches followed by a subscription, with the writes of the
  four continuations left open: \<open>fD\<close>, \<open>fT\<close>, \<open>fA\<close> for the fetches and \<open>fL\<close> for the
  subscription. The subscription is outstanding exactly after three replies, which
  answer the three fetches; a projection \<open>g\<close> of the state that no fetch writes is
  unchanged until then; the run is over with the fourth reply, which answers the
  subscription, in a state \<open>fL\<close> has written.
\<close>

lemma group3_then_listen:
  assumes "run evs
      (s0, Join [Invoke_UsbDeviceInfos cD aD (\<lambda>r s. (fD r s, Done)),
                 Invoke_TrustedDevices cT aT (\<lambda>r s. (fT r s, Done)),
                 Invoke_boolean cA aA (\<lambda>r s. (fA r s, Done))]
             (\<lambda>s1. (s1, Listen ev h (\<lambda>r s. (fL r s, Done))))) = Some (s', t')"
    and "\<And>r s. g (fD r s) = g s" "\<And>r s. g (fT r s) = g s" "\<And>r s. g (fA r s) = g s"
    and "\<And>r s. q (fL r s)"
  shows "(length evs < 3 \<longrightarrow>
            g s' = g s0 \<and> pending t' \<noteq> [] \<and> (\<forall>ev' h'. Subscribe ev' h' \<notin> set (pending t')))
       \<and> (length evs = 3 \<longrightarrow>
            g s' = g s0 \<and> pending t' = [Subscribe ev h] \<and> set (map fst evs) = {cD, cT, cA})
       \<and> (length evs = 4 \<longrightarrow> t' = Done \<and> q s' \<and> fst (last evs) = ev)
       \<and> length evs \<le> 4"
  using assms(1)
  by (auto elim!: run_elims simp: resolve_iffs assms(2-)
      simp del: resolve.simps resolve_first.simps(2))

text \<open>
  In such a run without a successful reply to the third fetch, a projection \<open>g\<close> of the
  state that only that success writes is unchanged.
\<close>

lemma group3_frame:
  assumes "run evs
      (s0, Join [Invoke_UsbDeviceInfos cD aD (\<lambda>r s. (fD r s, Done)),
                 Invoke_TrustedDevices cT aT (\<lambda>r s. (fT r s, Done)),
                 Invoke_boolean cA aA (\<lambda>r s. (fA r s, Done))]
             (\<lambda>s1. (s1, Listen ev h (\<lambda>r s. (fL r s, Done))))) = Some (s', t')"
    and "\<forall>ev \<in> set evs. \<not> is_Flag (snd ev)"
    and "\<And>r s. g (fD r s) = g s" "\<And>r s. g (fT r s) = g s"
        "\<And>e s. g (fA (Inl e) s) = g s" "\<And>r s. g (fL r s) = g s"
  shows "g s' = g s0"
  using assms(1,2)
  by (auto elim!: run_elims simp: resolve_iffs assms(3-)
      simp del: resolve.simps resolve_first.simps(2))

section \<open>The error slot after a successful fetch\<close>

text \<open>
  C1, as amended. Whatever the error slot holds, a device fetch that the gateway answers
  with a device list stores the list and clears the slot to absent. A trusted-pair fetch
  that the gateway answers with a pair list stores the list and leaves the error slot as
  it was: \<^verbatim>\<open>refreshTrustedDevices\<close> has no \<^verbatim>\<open>setError(null)\<close>. Here \<open>s0\<close> is the state at
  the call and \<open>s\<close> the state at the moment the reply arrives.
\<close>

theorem successful_fetch_error_slot:
  "resolve ''get_usb_devices'' (Devices ds) (snd (refreshDevices s0)) s
     = Some (s\<lparr>devices := ds, error := None\<rparr>, Done) \<and>
   resolve ''get_trusted_devices'' (Pairs ps) (snd (refreshTrustedDevices s0)) s
     = Some (s\<lparr>trustedDevices := ps\<rparr>, Done)"
  by (simp add: refreshDevices_def refreshTrustedDevices_def)

text \<open>
  C1 as stated does not hold: with a message pending in the error slot, a trusted-pair
  fetch that succeeds leaves that message in the slot.
\<close>

theorem trusted_fetch_keeps_error:
  "map_option (error \<circ> fst)
     (run [(''get_trusted_devices'', Pairs [(1133, 50475)])]
        (refreshTrustedDevices
           (initial_state\<lparr>error := Some ''Failed to fetch devices: timeout''\<rparr>)))
   = Some (Some ''Failed to fetch devices: timeout'')"
  by (simp add: refreshTrustedDevices_def)

section \<open>Block all ports\<close>

text \<open>
  C2. The call of \<^verbatim>\<open>blockAllPorts\<close> sets the status to \<open>blocking\<close> before its first
  \<^verbatim>\<open>await\<close>. In every run of the operation the status is \<open>blocking\<close> as long as the
  operation is suspended and \<open>idle\<close> once it has finished, so it is never left at
  \<open>blocking\<close>. The operation does finish with the status \<open>idle\<close> in each of the three
  outcomes: the first command rejected; the first accepted and the second rejected; both
  accepted (whether the device fetch that follows succeeds or fails).
\<close>

theorem blockAllPorts_status_bracket:
  "blockStatus (fst (blockAllPorts s0)) = blocking \<and>
   (run evs (blockAllPorts s0) = Some (s', t') \<longrightarrow>
      blockStatus s' = (if is_Done t' then idle else blocking)) \<and>
   map_option (\<lambda>(s, t). (blockStatus s, is_Done t))
     (run [(''block_all_usb_ports'', Rejected e)] (blockAllPorts s0)) = Some (idle, True) \<and>
   map_option (\<lambda>(s, t). (blockStatus s, is_Done t))
     (run [(''block_all_usb_ports'', Ack), (''restart_usb_service'', Rejected e)]
        (blockAllPorts s0)) = Some (idle, True) \<and>
   map_option (\<lambda>(s, t). (blockStatus s, is_Done t))
     (run [(''block_all_usb_ports'', Ack), (''restart_usb_service'', Ack),
           (''get_usb_devices'', Devices ds)] (blockAllPorts s0)) = Some (idle, True) \<and>
   map_option (\<lambda>(s, t). (blockStatus s, is_Done t))
     (run [(''block_all_usb_ports'', Ack), (''restart_usb_service'', Ack),
           (''get_usb_devices'', Rejected e)] (blockAllPorts s0)) = Some (idle, True)"
proof -
  have "run evs (blockAllPorts s0) = Some (s', t') \<Longrightarrow>
      blockStatus s' = (if is_Done t' then idle else blocking)"
    unfolding app_defs
    by (auto elim!: run_elims split: if_splits option.splits reply.splits)
  then show ?thesis
    by (simp add: app_defs)
qed

theorem blockAllPorts_status_bracket_witness:
  "run [(''block_all_usb_ports'', Ack), (''restart_usb_service'', Rejected (Value ''access denied''))]
       (blockAllPorts initial_state)
     = Some (initial_state\<lparr>blockStatus := idle, error := Some ''access denied''\<rparr>, Done) \<and>
   blockStatus (initial_state\<lparr>blockStatus := idle, error := Some ''access denied''\<rparr>)
     = (if is_Done Done then idle else blocking)"
proof -
  have r: "run [(''block_all_usb_ports'', Ack),
                (''restart_usb_service'', Rejected (Value ''access denied''))]
               (blockAllPorts initial_state)
     = Some (initial_state\<lparr>blockStatus := idle, error := Some ''access denied''\<rparr>, Done)"
    by (simp add: app_defs)
  have "blockStatus (initial_state\<lparr>blockStatus := idle, error := Some ''access denied''\<rparr>)
     = (if is_Done Done then idle else blocking)"
    using blockAllPorts_status_bracket
      [of initial_state
          "[(''block_all_usb_ports'', Ack),
            (''restart_usb_service'', Rejected (Value ''access denied''))]"
          "initial_state\<lparr>blockStatus := idle, error := Some ''access denied''\<rparr>" Done] r
    by blast
  with r show ?thesis
    by blast
qed

text \<open>
  C3. \<^verbatim>\<open>blockAllPorts\<close> first has only \<^verbatim>\<open>block_all_usb_ports\<close> outstanding. If that
  command is rejected the error slot receives \<^verbatim>\<open>String(err)\<close> and the operation is
  finished: neither \<^verbatim>\<open>restart_usb_service\<close> nor the device fetch is issued. If it is
  accepted, \<^verbatim>\<open>restart_usb_service\<close> is the one outstanding request; if that is rejected
  the error slot receives \<^verbatim>\<open>String(err)\<close> and the operation is finished without the device
  fetch; if it is accepted the device fetch is issued. \<^verbatim>\<open>String(err)\<close> of a rejection by a
  string is that string, with nothing put in front.
\<close>

theorem blockAllPorts_sequence:
  "pending (snd (blockAllPorts s0)) = [Call ''block_all_usb_ports'' []] \<and>
   run [(''block_all_usb_ports'', Rejected e)] (blockAllPorts s0)
     = Some (s0\<lparr>blockStatus := idle, error := Some (js_String e)\<rparr>, Done) \<and>
   map_option (pending \<circ> snd) (run [(''block_all_usb_ports'', Ack)] (blockAllPorts s0))
     = Some [Call ''restart_usb_service'' []] \<and>
   run [(''block_all_usb_ports'', Ack), (''restart_usb_service'', Rejected e)] (blockAllPorts s0)
     = Some (s0\<lparr>blockStatus := idle, error := Some (js_String e)\<rparr>, Done) \<and>
   map_option (pending \<circ> snd)
     (run [(''block_all_usb_ports'', Ack), (''restart_usb_service'', Ack)] (blockAllPorts s0))
     = Some [Call ''get_usb_devices'' []] \<and>
   js_String (Value m) = m"
  by (simp add: app_defs)

text \<open>
  C10. When both commands are accepted and the device fetch that follows succeeds,
  \<^verbatim>\<open>blockAllPorts\<close> finishes with the error slot absent, whatever the slot held in the
  state \<open>s0\<close> the operation started from.
\<close>

theorem blockAllPorts_success_clears_error:
  "run [(''block_all_usb_ports'', Ack), (''restart_usb_service'', Ack),
        (''get_usb_devices'', Devices ds)] (blockAllPorts s0)
     = Some (s0\<lparr>blockStatus := idle, devices := ds, error := None\<rparr>, Done)"
  by (simp add: app_defs)

section \<open>Unblock ports\<close>

text \<open>
  C8. \<^verbatim>\<open>unblockPorts\<close> does not write the status at the call, and in every run of the
  operation, whether \<^verbatim>\<open>unblock_usb_port\<close> is accepted or rejected and however far the run
  has come, the status is the one the operation started with.
\<close>

theorem unblockPorts_keeps_status:
  "fst (unblockPorts s0) = s0 \<and>
   (run evs (unblockPorts s0) = Some (s', t') \<longrightarrow> blockStatus s' = blockStatus s0)"
proof -
  have "run evs (unblockPorts s0) = Some (s', t') \<Longrightarrow> blockStatus s' = blockStatus s0"
    unfolding app_defs
    by (auto elim!: run_elims split: if_splits option.splits reply.splits)
  then show ?thesis
    by (simp add: app_defs)
qed

theorem unblockPorts_keeps_status_witness:
  "run [(''unblock_usb_port'', Ack), (''get_usb_devices'', Devices [example_device])]
       (unblockPorts initial_state)
     = Some (initial_state\<lparr>devices := [example_device], error := None\<rparr>, Done) \<and>
   blockStatus (initial_state\<lparr>devices := [example_device], error := None\<rparr>)
     = blockStatus initial_state \<and>
   run [(''unblock_usb_port'', Rejected (Value ''access denied''))] (unblockPorts initial_state)
     = Some (initial_state\<lparr>error := Some ''Failed to unblock ports: access denied''\<rparr>, Done) \<and>
   blockStatus (initial_state\<lparr>error := Some ''Failed to unblock ports: access denied''\<rparr>)
     = blockStatus initial_state"
proof -
  have r1: "run [(''unblock_usb_port'', Ack), (''get_usb_devices'', Devices [example_device])]
       (unblockPorts initial_state)
     = Some (initial_state\<lparr>devices := [example_device], error := None\<rparr>, Done)"
    by (simp add: app_defs)
  have r2: "run [(''unblock_usb_port'', Rejected (Value ''access denied''))]
       (unblockPorts initial_state)
     = Some (initial_state\<lparr>error := Some ''Failed to unblock ports: access denied''\<rparr>, Done)"
    by (simp add: app_defs)
  from r1 r2
    unblockPorts_keeps_status
      [of initial_state
          "[(''unblock_usb_port'', Ack), (''get_usb_devices'', Devices [example_device])]"
          "initial_state\<lparr>devices := [example_device], error := None\<rparr>" Done]
    unblockPorts_keeps_status
      [of initial_state "[(''unblock_usb_port'', Rejected (Value ''access denied''))]"
          "initial_state\<lparr>error := Some ''Failed to unblock ports: access denied''\<rparr>" Done]
  show ?thesis
    by blast
qed

section \<open>Trust and autoblock toggles\<close>

text \<open>
  C4. \<^verbatim>\<open>toggleDeviceTrust\<close> writes nothing at the call and invokes
  \<^verbatim>\<open>remove_trusted_device\<close> when the device's \<^verbatim>\<open>trusted\<close> flag is set and
  \<^verbatim>\<open>add_trusted_device\<close> otherwise, with the device's vendor and product ids. When the
  command is accepted, the device fetch and the trusted-pair fetch are both outstanding
  at once, and in either order of their replies both fetched lists are stored. When the
  command is rejected, the only write is the message
  \<^verbatim>\<open>Failed to update device trust: ...\<close> to the error slot: devices, trusted pairs and
  policy are as they were. Here \<open>c\<close> is the name of the command the operation invokes and
  \<open>s\<close> the state at the moment its reply arrives.
\<close>

theorem toggleDeviceTrust_behaviour:
  "fst (toggleDeviceTrust device s0) = s0 \<and>
   pending (snd (toggleDeviceTrust device s0)) =
     [Call (if trusted device then ''remove_trusted_device'' else ''add_trusted_device'')
        [(''vendorId'', Num (vendor_id device)), (''productId'', Num (product_id device))]] \<and>
   (let c = (if trusted device then ''remove_trusted_device'' else ''add_trusted_device'') in
    map_option (\<lambda>(s', t'). (s', pending t'))
      (resolve c Ack (snd (toggleDeviceTrust device s0)) s)
      = Some (s, [Call ''get_usb_devices'' [], Call ''get_trusted_devices'' []]) \<and>
    run [(c, Ack), (''get_usb_devices'', Devices ds), (''get_trusted_devices'', Pairs ps)]
        (toggleDeviceTrust device s0)
      = Some (s0\<lparr>devices := ds, trustedDevices := ps, error := None\<rparr>, Done) \<and>
    run [(c, Ack), (''get_trusted_devices'', Pairs ps), (''get_usb_devices'', Devices ds)]
        (toggleDeviceTrust device s0)
      = Some (s0\<lparr>devices := ds, trustedDevices := ps, error := None\<rparr>, Done) \<and>
    resolve c (Rejected e) (snd (toggleDeviceTrust device s0)) s
      = Some (s\<lparr>error := Some (''Failed to update device trust: '' @ message_of e)\<rparr>, Done))"
  by (simp add: app_defs)

text \<open>
  C5. \<^verbatim>\<open>toggleAutoblock\<close>, called in a state whose policy flag is \<open>b\<close>, writes nothing at
  the call and invokes \<^verbatim>\<open>set_autoblock_mode\<close> with \<^verbatim>\<open>enabled\<close> = not \<open>b\<close>. When the command is
  accepted the policy flag is set to not \<open>b\<close>; when it is rejected the only write is the
  message \<^verbatim>\<open>Failed to toggle autoblock: ...\<close> to the error slot, and the flag stays.
  Here \<open>s\<close> is the state at the moment the reply arrives.
\<close>

theorem toggleAutoblock_behaviour:
  "fst (toggleAutoblock s0) = s0 \<and>
   pending (snd (toggleAutoblock s0))
     = [Call ''set_autoblock_mode'' [(''enabled'', Bool (\<not> autoblockEnabled s0))]] \<and>
   resolve ''set_autoblock_mode'' Ack (snd (toggleAutoblock s0)) s
     = Some (s\<lparr>autoblockEnabled := \<not> autoblockEnabled s0\<rparr>, Done) \<and>
   resolve ''set_autoblock_mode'' (Rejected e) (snd (toggleAutoblock s0)) s
     = Some (s\<lparr>error := Some (''Failed to toggle autoblock: '' @ message_of e)\<rparr>, Done)"
  by (simp add: app_defs)

section \<open>Activation\<close>

text \<open>
  C6. On activation the loading indicator is set, and \<^verbatim>\<open>initializeApp\<close> writes nothing and
  issues the device fetch, the trusted-pair fetch and the policy fetch. In every run: as
  long as fewer than three replies have arrived a fetch is still outstanding, no
  subscription has been asked for and the loading indicator is untouched; when the third
  reply has arrived the replies answer the three fetches, whatever their outcomes and
  their order, the one outstanding request is the subscription to \<^verbatim>\<open>usb-device-changed\<close>
  with \<^verbatim>\<open>refreshDevices\<close> as its handler, and the loading indicator is still untouched;
  the fourth reply answers the subscription, by acceptance or rejection, and with it the
  operation is finished and the loading indicator is cleared. The handler
  \<^verbatim>\<open>refreshDevices\<close> issues the device fetch and nothing else.
\<close>

theorem initializeApp_order:
  "isLoading initial_state \<and>
   fst (initializeApp s0) = s0 \<and>
   pending (snd (initializeApp s0)) =
     [Call ''get_usb_devices'' [], Call ''get_trusted_devices'' [],
      Call ''get_autoblock_mode'' []] \<and>
   pending (snd (refreshDevices s)) = [Call ''get_usb_devices'' []] \<and>
   (run evs (initializeApp s0) = Some (s', t') \<longrightarrow>
      (length evs < 3 \<longrightarrow>
         isLoading s' = isLoading s0 \<and> pending t' \<noteq> [] \<and>
         (\<forall>ev h. Subscribe ev h \<notin> set (pending t'))) \<and>
      (length evs = 3 \<longrightarrow>
         isLoading s' = isLoading s0 \<and>
         pending t' = [Subscribe ''usb-device-changed'' refreshDevices] \<and>
         set (map fst evs) = {''get_usb_devices'', ''get_trusted_devices'', ''get_autoblock_mode''}) \<and>
      (length evs = 4 \<longrightarrow>
         is_Done t' \<and> \<not> isLoading s' \<and> fst (last evs) = ''usb-device-changed'') \<and>
      length evs \<le> 4)"
proof -
  have "run evs (initializeApp s0) = Some (s', t') \<Longrightarrow>
      (length evs < 3 \<longrightarrow>
         isLoading s' = isLoading s0 \<and> pending t' \<noteq> [] \<and>
         (\<forall>ev h. Subscribe ev h \<notin> set (pending t'))) \<and>
      (length evs = 3 \<longrightarrow>
         isLoading s' = isLoading s0 \<and>
         pending t' = [Subscribe ''usb-device-changed'' refreshDevices] \<and>
         set (map fst evs) = {''get_usb_devices'', ''get_trusted_devices'', ''get_autoblock_mode''}) \<and>
      (length evs = 4 \<longrightarrow>
         t' = Done \<and> \<not> isLoading s' \<and> fst (last evs) = ''usb-device-changed'') \<and>
      length evs \<le> 4"
    unfolding initializeApp_def await_all_def
    apply (simp add: refreshDevices_def refreshTrustedDevices_def checkAutoblockMode_def)
    apply (drule group3_then_listen [where g = isLoading and q = "\<lambda>s. \<not> isLoading s"])
        apply (simp_all split: sum.splits)
    done
  then show ?thesis
    by (auto simp add: app_defs initial_state_def)
qed

theorem initializeApp_order_witness:
  "run [(''get_trusted_devices'', Rejected (Value ''store unavailable'')),
        (''get_usb_devices'', Devices [example_device])]
       (initializeApp initial_state) \<noteq> None \<and>
   isLoading (fst (the (run [(''get_trusted_devices'', Rejected (Value ''store unavailable'')),
                             (''get_usb_devices'', Devices [example_device])]
                            (initializeApp initial_state)))) = isLoading initial_state \<and>
   run [(''get_trusted_devices'', Rejected (Value ''store unavailable'')),
        (''get_usb_devices'', Devices [example_device]),
        (''get_autoblock_mode'', Flag False)]
       (initializeApp initial_state) \<noteq> None \<and>
   pending (snd (the (run [(''get_trusted_devices'', Rejected (Value ''store unavailable'')),
                           (''get_usb_devices'', Devices [example_device]),
                           (''get_autoblock_mode'', Flag False)]
                          (initializeApp initial_state))))
     = [Subscribe ''usb-device-changed'' refreshDevices] \<and>
   run [(''get_trusted_devices'', Rejected (Value ''store unavailable'')),
        (''get_usb_devices'', Devices [example_device]),
        (''get_autoblock_mode'', Flag False),
        (''usb-device-changed'', Rejected (Value ''not allowed''))]
       (initializeApp initial_state)
     = Some (initial_state\<lparr>devices := [example_device], autoblockEnabled := False,
                            error := Some ''not allowed'', isLoading := False\<rparr>, Done) \<and>
   \<not> isLoading (initial_state\<lparr>devices := [example_device], autoblockEnabled := False,
                               error := Some ''not allowed'', isLoading := False\<rparr>)"
proof -
  let ?e2 = "[(''get_trusted_devices'', Rejected (Value ''store unavailable'')),
              (''get_usb_devices'', Devices [example_device])]"
  let ?e3 = "?e2 @ [(''get_autoblock_mode'', Flag False)]"
  let ?e4 = "?e3 @ [(''usb-device-changed'', Rejected (Value ''not allowed''))]"
  let ?s4 = "initial_state\<lparr>devices := [example_device], autoblockEnabled := False,
                            error := Some ''not allowed'', isLoading := False\<rparr>"
  have r2: "run ?e2 (initializeApp initial_state) \<noteq> None"
    by (simp add: app_defs)
  have r3: "run ?e3 (initializeApp initial_state) \<noteq> None"
    by (simp add: app_defs)
  have r4: "run ?e4 (initializeApp initial_state) = Some (?s4, Done)"
    by (simp add: app_defs)
  from r2 initializeApp_order
      [where ?s0.0 = initial_state and evs = ?e2
         and s' = "fst (the (run ?e2 (initializeApp initial_state)))"
         and t' = "snd (the (run ?e2 (initializeApp initial_state)))"]
  have c2: "isLoading (fst (the (run ?e2 (initializeApp initial_state))))
              = isLoading initial_state"
    by auto
  from r3 initializeApp_order
      [where ?s0.0 = initial_state and evs = ?e3
         and s' = "fst (the (run ?e3 (initializeApp initial_state)))"
         and t' = "snd (the (run ?e3 (initializeApp initial_state)))"]
  have c3: "pending (snd (the (run ?e3 (initializeApp initial_state))))
              = [Subscribe ''usb-device-changed'' refreshDevices]"
    by auto
  from r4 initializeApp_order
      [where ?s0.0 = initial_state and evs = ?e4 and s' = ?s4 and t' = Done]
  have c4: "\<not> isLoading ?s4"
    by auto
  from r2 r3 r4 c2 c3 c4 show ?thesis
    by simp
qed

text \<open>
  C7, as amended. In the triad of \<^verbatim>\<open>initializeApp\<close>, let the device fetch succeed with
  \<open>ds\<close>, the policy fetch succeed with \<open>b\<close> and the trusted-pair fetch be rejected with \<open>e\<close>.
  In each of the six orders in which the three replies can arrive, the device list is \<open>ds\<close>
  and the policy flag is \<open>b\<close> afterwards. The error slot holds the one message
  \<^verbatim>\<open>Failed to fetch trusted devices: ...\<close> in the three orders in which the rejection
  arrives after the device list; in the three orders in which the device list arrives
  after the rejection, the \<^verbatim>\<open>setError(null)\<close> of \<^verbatim>\<open>refreshDevices\<close> has emptied the slot.
\<close>

theorem partial_triad_by_order:
  "map_option fst
     (run [(''get_usb_devices'', Devices ds), (''get_trusted_devices'', Rejected e),
           (''get_autoblock_mode'', Flag b)] (initializeApp s0))
     = Some (s0\<lparr>devices := ds, autoblockEnabled := b,
               error := Some (''Failed to fetch trusted devices: '' @ message_of e)\<rparr>) \<and>
   map_option fst
     (run [(''get_usb_devices'', Devices ds), (''get_autoblock_mode'', Flag b),
           (''get_trusted_devices'', Rejected e)] (initializeApp s0))
     = Some (s0\<lparr>devices := ds, autoblockEnabled := b,
               error := Some (''Failed to fetch trusted devices: '' @ message_of e)\<rparr>) \<and>
   map_option fst
     (run [(''get_autoblock_mode'', Flag b), (''get_usb_devices'', Devices ds),
           (''get_trusted_devices'', Rejected e)] (initializeApp s0))
     = Some (s0\<lparr>devices := ds, autoblockEnabled := b,
               error := Some (''Failed to fetch trusted devices: '' @ message_of e)\<rparr>) \<and>
   map_option fst
     (run [(''get_trusted_devices'', Rejected e), (''get_usb_devices'', Devices ds),
           (''get_autoblock_mode'', Flag b)] (initializeApp s0))
     = Some (s0\<lparr>devices := ds, autoblockEnabled := b, error := None\<rparr>) \<and>
   map_option fst
     (run [(''get_trusted_devices'', Rejected e), (''get_autoblock_mode'', Flag b),
           (''get_usb_devices'', Devices ds)] (initializeApp s0))
     = Some (s0\<lparr>devices := ds, autoblockEnabled := b, error := None\<rparr>) \<and>
   map_option fst
     (run [(''get_autoblock_mode'', Flag b), (''get_trusted_devices'', Rejected e),
           (''get_usb_devices'', Devices ds)] (initializeApp s0))
     = Some (s0\<lparr>devices := ds, autoblockEnabled := b, error := None\<rparr>)"
  by (simp add: app_defs)

text \<open>
  C7 as stated does not hold: when the rejection of the trusted-pair fetch arrives first
  and the device list after it, the three fetches have settled and the error slot is
  absent.
\<close>

theorem partial_triad_error_lost:
  "map_option (error \<circ> fst)
     (run [(''get_trusted_devices'', Rejected (Value ''store unavailable'')),
           (''get_usb_devices'', Devices [example_device]),
           (''get_autoblock_mode'', Flag False)]
        (initializeApp initial_state))
   = Some None"
  by (simp add: app_defs)

text \<open>
  C9. The policy flag starts as true. In every run of \<^verbatim>\<open>initializeApp\<close> from the initial
  state in which no reply is a policy value (the policy fetch is still outstanding, or
  \<^verbatim>\<open>get_autoblock_mode\<close> was rejected) the flag is still true, and \<^verbatim>\<open>toggleAutoblock\<close>
  called in that state invokes \<^verbatim>\<open>set_autoblock_mode\<close> with \<^verbatim>\<open>enabled\<close> = false.
\<close>

theorem autoblock_default_until_fetched:
  "autoblockEnabled initial_state \<and>
   (run evs (initializeApp initial_state) = Some (s', t') \<longrightarrow>
    (\<forall>ev \<in> set evs. \<not> is_Flag (snd ev)) \<longrightarrow>
      autoblockEnabled s' \<and>
      pending (snd (toggleAutoblock s'))
        = [Call ''set_autoblock_mode'' [(''enabled'', Bool False)]])"
proof -
  have "run evs (initializeApp initial_state) = Some (s', t') \<Longrightarrow>
    (\<forall>ev \<in> set evs. \<not> is_Flag (snd ev)) \<Longrightarrow>
    autoblockEnabled s' = autoblockEnabled initial_state"
    unfolding initializeApp_def await_all_def
    apply (simp add: refreshDevices_def refreshTrustedDevices_def checkAutoblockMode_def)
    apply (rule group3_frame [where g = autoblockEnabled])
         apply assumption
        apply (simp_all split: sum.splits)
    done
  then show ?thesis
    by (auto simp add: toggleAutoblock_def initial_state_def)
qed

theorem autoblock_default_until_fetched_witness:
  "run [(''get_autoblock_mode'', Rejected (Value ''no policy service'')),
        (''get_usb_devices'', Devices [example_device]),
        (''get_trusted_devices'', Pairs [(1133, 50475)]),
        (''usb-device-changed'', Unlisten)]
       (initializeApp initial_state)
     = Some (initial_state\<lparr>devices := [example_device], error := None,
                            trustedDevices := [(1133, 50475)], isLoading := False\<rparr>, Done) \<and>
   autoblockEnabled (initial_state\<lparr>devices := [example_device], error := None,
                                    trustedDevices := [(1133, 50475)],
                                    isLoading := False\<rparr>) \<and>
   pending (snd (toggleAutoblock (initial_state\<lparr>devices := [example_device], error := None,
                                                trustedDevices := [(1133, 50475)],
                                                isLoading := False\<rparr>)))
     = [Call ''set_autoblock_mode'' [(''enabled'', Bool False)]]"
proof -
  let ?evs = "[(''get_autoblock_mode'', Rejected (Value ''no policy service'')),
               (''get_usb_devices'', Devices [example_device]),
               (''get_trusted_devices'', Pairs [(1133, 50475)]),
               (''usb-device-changed'', Unlisten)]"
  let ?s = "initial_state\<lparr>devices := [example_device], error := None,
                            trustedDevices := [(1133, 50475)], isLoading := False\<rparr>"
  have r: "run ?evs (initializeApp initial_state) = Some (?s, Done)"
    by (simp add: app_defs)
  have n: "\<forall>ev \<in> set ?evs. \<not> is_Flag (snd ev)"
    by simp
  from r n autoblock_default_until_fetched [of ?evs ?s Done]
  have "autoblockEnabled ?s \<and>
        pending (snd (toggleAutoblock ?s))
          = [Call ''set_autoblock_mode'' [(''enabled'', Bool False)]]"
    by blast
  with r show ?thesis
    by blast
qed

end
